theory Spec2Isabelle
  imports Main "HOL-Library.Word"
begin

section \<open>Time arithmetic of \<^verbatim>\<open>common_utils.h\<close>\<close>

text \<open>
  The header is modelled for an LP64 target: \<^verbatim>\<open>time_t\<close>, \<^verbatim>\<open>long\<close>,
  \<^verbatim>\<open>size_t\<close> and \<^verbatim>\<open>uint64_t\<close> are 64 bits wide, \<^verbatim>\<open>int\<close> is 32 bits wide.
  A 64-bit object is a \<open>64 word\<close>; \<open>+\<close>, \<open>-\<close> and \<open>*\<close> wrap, \<open>div\<close> and \<open>mod\<close>
  are the unsigned operations, \<open>sint\<close> reads the two's complement value, and
  \<open><s\<close>, \<open>\<le>s\<close> are the signed comparisons of two \<^verbatim>\<open>time_t\<close> or \<^verbatim>\<open>long\<close>
  operands. Where C mixes a signed 64-bit operand with an \<^verbatim>\<open>nsecs_elapsed_t\<close>
  one, the usual arithmetic conversions make the operation unsigned, which is
  the word operation.
\<close>

text \<open>
  Modelled from the spec: \<^verbatim>\<open>gsh_types.h\<close>, which declares \<^verbatim>\<open>nsecs_elapsed_t\<close>
  and \<^verbatim>\<open>NS_PER_SEC\<close>, is not among the sources. The spec's ElapsedNanos is
  "a single 64-bit integer counting nanoseconds", taken here as the unsigned
  64-bit counter, and one second is \<open>1_000_000_000\<close> nanoseconds.
\<close>

type_synonym nsecs_elapsed_t = "64 word"

definition NS_PER_SEC :: nsecs_elapsed_t where
  "NS_PER_SEC = 1000000000"

text \<open>\<^verbatim>\<open>struct timespec\<close>: \<^verbatim>\<open>time_t tv_sec; long tv_nsec;\<close>\<close>

record timespec =
  tv_sec :: "64 word"
  tv_nsec :: "64 word"

definition timespec_diff :: "timespec \<Rightarrow> timespec \<Rightarrow> nsecs_elapsed_t" where
  "timespec_diff start end' =
     (if tv_sec start <s tv_sec end'
         \<or> (tv_sec end' = tv_sec start \<and> tv_nsec start \<le>s tv_nsec end')
      then (tv_sec end' - tv_sec start) * NS_PER_SEC + (tv_nsec end' - tv_nsec start)
      else (tv_sec start - tv_sec end') * NS_PER_SEC + (tv_nsec start - tv_nsec end'))"

definition timespec_to_nsecs :: "timespec \<Rightarrow> nsecs_elapsed_t" where
  "timespec_to_nsecs ts = tv_sec ts * NS_PER_SEC + tv_nsec ts"

text \<open>The out-parameter of \<^verbatim>\<open>nsecs_to_timespec\<close> is the returned record.\<close>

definition nsecs_to_timespec :: "nsecs_elapsed_t \<Rightarrow> timespec" where
  "nsecs_to_timespec interval =
     \<lparr>tv_sec = interval div NS_PER_SEC, tv_nsec = interval mod NS_PER_SEC\<rparr>"

text \<open>
  The two in-place updates take the record and return it updated. In
  \<^verbatim>\<open>timespec_add_nsecs\<close> the test \<^verbatim>\<open>tv_nsec > NS_PER_SEC\<close> compares a \<^verbatim>\<open>long\<close>
  with an \<^verbatim>\<open>nsecs_elapsed_t\<close>, so it is the unsigned \<open><\<close> of words; in
  \<^verbatim>\<open>timespec_sub_nsecs\<close> both operands of \<^verbatim>\<open>ts.tv_nsec > t->tv_nsec\<close> are
  \<^verbatim>\<open>long\<close>, so it is the signed \<open><s\<close>.
\<close>

definition timespec_add_nsecs :: "nsecs_elapsed_t \<Rightarrow> timespec \<Rightarrow> timespec" where
  "timespec_add_nsecs interval timespec =
     (let t1 = timespec\<lparr>tv_sec := tv_sec timespec + interval div NS_PER_SEC\<rparr>;
          t2 = t1\<lparr>tv_nsec := tv_nsec t1 + interval mod NS_PER_SEC\<rparr>
      in if NS_PER_SEC < tv_nsec t2
         then (let t3 = t2\<lparr>tv_sec := tv_sec t2 + tv_nsec t2 div NS_PER_SEC\<rparr>
               in t3\<lparr>tv_nsec := tv_nsec t3 mod NS_PER_SEC\<rparr>)
         else t2)"

definition timespec_sub_nsecs :: "nsecs_elapsed_t \<Rightarrow> timespec \<Rightarrow> timespec" where
  "timespec_sub_nsecs interval t =
     (let ts = nsecs_to_timespec interval
      in if tv_nsec t <s tv_nsec ts
         then (let t1 = t\<lparr>tv_sec := tv_sec t - (tv_sec ts + 1)\<rparr>
               in t1\<lparr>tv_nsec := tv_nsec ts - tv_nsec t1\<rparr>)
         else (let t1 = t\<lparr>tv_sec := tv_sec t - tv_sec ts\<rparr>
               in t1\<lparr>tv_nsec := tv_nsec t1 - tv_nsec ts\<rparr>))"

text \<open>\<^verbatim>\<open>gsh_time_cmp\<close> returns the C \<^verbatim>\<open>int\<close> -1, 0 or 1.\<close>

definition gsh_time_cmp :: "timespec \<Rightarrow> timespec \<Rightarrow> int" where
  "gsh_time_cmp t1 t2 =
     (if tv_sec t1 <s tv_sec t2 then - 1
      else if tv_sec t2 <s tv_sec t1 then 1
      else if tv_nsec t1 <s tv_nsec t2 then - 1
      else if tv_nsec t2 <s tv_nsec t1 then 1
      else 0)"

text \<open>
  A wall time is normalized when its nanosecond field, read as the signed
  \<^verbatim>\<open>long\<close> it is, lies in \<open>[0, 10^9)\<close>. \<open>flat\<close> is the mathematical value
  \<open>seconds * 10^9 + nanoseconds\<close> of a wall time, without any wrap-around.
\<close>

definition normalized :: "timespec \<Rightarrow> bool" where
  "normalized w \<longleftrightarrow> 0 \<le> sint (tv_nsec w) \<and> sint (tv_nsec w) < 1000000000"

definition flat :: "timespec \<Rightarrow> int" where
  "flat w = sint (tv_sec w) * 1000000000 + sint (tv_nsec w)"

section \<open>Logging, abort and the instrumented lock macros\<close>

text \<open>
  \<^verbatim>\<open>LogFullDebug\<close> and \<^verbatim>\<open>LogCrit\<close> belong to the logging collaborator
  (\<^verbatim>\<open>log.h\<close>); only their call contract is used. A call is recorded as a log
  record holding the severity, the component tag, the format string and the
  arguments in the order they are passed. A piece of code yields the records it
  emitted, in order, and how it ended: it returns to its caller, or the
  process is aborted.
\<close>

datatype log_levels = NIV_CRIT | NIV_FULL_DEBUG

datatype log_components = COMPONENT_MAIN | COMPONENT_RW_LOCK

datatype log_arg = Arg_int int | Arg_ptr nat | Arg_str string

record log_record =
  log_level :: log_levels
  log_component :: log_components
  log_format :: string
  log_args :: "log_arg list"

datatype 'a control = Returns 'a | Aborts

definition LogFullDebug :: "log_components \<Rightarrow> string \<Rightarrow> log_arg list \<Rightarrow> log_record" where
  "LogFullDebug c fmt as =
     \<lparr>log_level = NIV_FULL_DEBUG, log_component = c, log_format = fmt, log_args = as\<rparr>"

definition LogCrit :: "log_components \<Rightarrow> string \<Rightarrow> log_arg list \<Rightarrow> log_record" where
  "LogCrit c fmt as =
     \<lparr>log_level = NIV_CRIT, log_component = c, log_format = fmt, log_args = as\<rparr>"

text \<open>
  What a macro expansion captures at its call site: the pointer passed as
  \<^verbatim>\<open>_lock\<close>, \<^verbatim>\<open>_mtx\<close> or \<^verbatim>\<open>_cond\<close>, its spelling \<^verbatim>\<open>#_lock\<close>, and
  \<^verbatim>\<open>__FILE__\<close> and \<^verbatim>\<open>__LINE__\<close>.
\<close>

record call_site =
  site_ptr :: nat
  site_expr :: string
  site_file :: string
  site_line :: int

text \<open>
  Every macro has the body
  \<^verbatim>\<open>rc = pthread_...(...); if (rc == 0) { LogFullDebug(...); } else { LogCrit(...); abort(); }\<close>
  and differs from the others in the pthread call and in the two format
  strings. The pthread primitive is an external call: the model takes its
  return code \<open>rc\<close> as an argument.
\<close>

definition logged_call ::
  "string \<Rightarrow> string \<Rightarrow> int \<Rightarrow> call_site \<Rightarrow> log_record list \<times> unit control" where
  "logged_call ok_fmt err_fmt rc s =
     (if rc = 0
      then ([LogFullDebug COMPONENT_RW_LOCK ok_fmt
               [Arg_ptr (site_ptr s), Arg_str (site_expr s),
                Arg_str (site_file s), Arg_int (site_line s)]],
            Returns ())
      else ([LogCrit COMPONENT_RW_LOCK err_fmt
               [Arg_int rc, Arg_ptr (site_ptr s), Arg_str (site_expr s),
                Arg_str (site_file s), Arg_int (site_line s)]],
            Aborts))"

definition PTHREAD_RWLOCK_init :: "int \<Rightarrow> call_site \<Rightarrow> log_record list \<times> unit control" where
  "PTHREAD_RWLOCK_init =
     logged_call ''Init rwlock %p (%s) at %s:%d''
                 ''Error %d, Init rwlock %p (%s) at %s:%d''"

definition PTHREAD_RWLOCK_destroy :: "int \<Rightarrow> call_site \<Rightarrow> log_record list \<times> unit control" where
  "PTHREAD_RWLOCK_destroy =
     logged_call ''Destroy mutex %p (%s) at %s:%d''
                 ''Error %d, Destroy mutex %p (%s) at %s:%d''"

definition PTHREAD_RWLOCK_wrlock :: "int \<Rightarrow> call_site \<Rightarrow> log_record list \<times> unit control" where
  "PTHREAD_RWLOCK_wrlock =
     logged_call ''Got write lock on %p (%s) at %s:%d''
                 ''Error %d, write locking %p (%s) at %s:%d''"

definition PTHREAD_RWLOCK_rdlock :: "int \<Rightarrow> call_site \<Rightarrow> log_record list \<times> unit control" where
  "PTHREAD_RWLOCK_rdlock =
     logged_call ''Got read lock on %p (%s) at %s:%d''
                 ''Error %d, read locking %p (%s) at %s:%d''"

definition PTHREAD_RWLOCK_unlock :: "int \<Rightarrow> call_site \<Rightarrow> log_record list \<times> unit control" where
  "PTHREAD_RWLOCK_unlock =
     logged_call ''Unlocked %p (%s) at %s:%d''
                 ''Error %d, unlocking %p (%s) at %s:%d''"

definition PTHREAD_MUTEX_lock :: "int \<Rightarrow> call_site \<Rightarrow> log_record list \<times> unit control" where
  "PTHREAD_MUTEX_lock =
     logged_call ''Acquired mutex %p (%s) at %s:%d''
                 ''Error %d, acquiring mutex %p (%s) at %s:%d''"

definition PTHREAD_MUTEX_unlock :: "int \<Rightarrow> call_site \<Rightarrow> log_record list \<times> unit control" where
  "PTHREAD_MUTEX_unlock =
     logged_call ''Released mutex %p (%s) at %s:%d''
                 ''Error %d, releasing mutex %p (%s) at %s:%d''"

definition PTHREAD_MUTEX_init :: "int \<Rightarrow> call_site \<Rightarrow> log_record list \<times> unit control" where
  "PTHREAD_MUTEX_init =
     logged_call ''Init mutex %p (%s) at %s:%d''
                 ''Error %d, Init mutex %p (%s) at %s:%d''"

definition PTHREAD_MUTEX_destroy :: "int \<Rightarrow> call_site \<Rightarrow> log_record list \<times> unit control" where
  "PTHREAD_MUTEX_destroy =
     logged_call ''Destroy mutex %p (%s) at %s:%d''
                 ''Error %d, Destroy mutex %p (%s) at %s:%d''"

definition PTHREAD_COND_init :: "int \<Rightarrow> call_site \<Rightarrow> log_record list \<times> unit control" where
  "PTHREAD_COND_init =
     logged_call ''Init cond %p (%s) at %s:%d''
                 ''Error %d, Init cond %p (%s) at %s:%d''"

definition PTHREAD_COND_destroy :: "int \<Rightarrow> call_site \<Rightarrow> log_record list \<times> unit control" where
  "PTHREAD_COND_destroy =
     logged_call ''Destroy cond %p (%s) at %s:%d''
                 ''Error %d, Destroy cond %p (%s) at %s:%d''"

text \<open>The eleven instrumented operations of the header.\<close>

definition instrumented_sync :: "(int \<Rightarrow> call_site \<Rightarrow> log_record list \<times> unit control) list" where
  "instrumented_sync =
     [PTHREAD_RWLOCK_init, PTHREAD_RWLOCK_destroy, PTHREAD_RWLOCK_wrlock,
      PTHREAD_RWLOCK_rdlock, PTHREAD_RWLOCK_unlock,
      PTHREAD_MUTEX_lock, PTHREAD_MUTEX_unlock, PTHREAD_MUTEX_init,
      PTHREAD_MUTEX_destroy, PTHREAD_COND_init, PTHREAD_COND_destroy]"

text \<open>
  \<^verbatim>\<open>assert\<close> is the macro of \<^verbatim>\<open>assert.h\<close>. Where \<^verbatim>\<open>NDEBUG\<close> is defined
  when \<^verbatim>\<open>assert.h\<close> is included, \<^verbatim>\<open>assert(e)\<close> expands to \<^verbatim>\<open>((void)0)\<close> and
  does nothing; otherwise it aborts the process when \<^verbatim>\<open>e\<close> is false. The
  header includes \<^verbatim>\<open>assert.h\<close> and neither defines nor undefines
  \<^verbatim>\<open>NDEBUG\<close>, so whether it is defined is up to the build and is an
  argument of the model.
\<close>

definition c_assert :: "bool \<Rightarrow> bool \<Rightarrow> unit control" where
  "c_assert ndebug e = (if ndebug \<or> e then Returns () else Aborts)"

text \<open>
  \<^verbatim>\<open>now\<close> calls the platform clock source on its out-parameter. The clock
  source is an argument: from the contents of \<^verbatim>\<open>*ts\<close> before the call it
  gives its return code and the contents of \<^verbatim>\<open>*ts\<close> after the call. After
  a failure \<^verbatim>\<open>now\<close> logs and executes \<^verbatim>\<open>assert(0)\<close>; if that returns, so
  does \<^verbatim>\<open>now\<close>, with whatever the buffer holds.
\<close>

definition now ::
  "bool \<Rightarrow> (timespec \<Rightarrow> int \<times> timespec) \<Rightarrow> timespec \<Rightarrow> log_record list \<times> timespec control" where
  "now ndebug clock_gettime ts =
     (let (rc, ts') = clock_gettime ts
      in if rc \<noteq> 0
         then (case c_assert ndebug False of
                 Aborts \<Rightarrow> ([LogCrit COMPONENT_MAIN ''Failed to get timestamp'' []], Aborts)
               | Returns u \<Rightarrow>
                   ([LogCrit COMPONENT_MAIN ''Failed to get timestamp'' []], Returns ts'))
         else ([], Returns ts'))"

section \<open>Bounded string helpers\<close>

text \<open>
  A character object (the destination buffer, or the object \<^verbatim>\<open>src\<close> points
  into) is the list of its bytes. \<^verbatim>\<open>strlen\<close> counts the bytes before the
  first NUL and \<^verbatim>\<open>memcpy\<close> overwrites a range of the destination; an access
  outside an object is undefined behaviour, which is the result \<open>None\<close>.
  \<^verbatim>\<open>strlen\<close> returns a \<^verbatim>\<open>size_t\<close>, a 64-bit word. Source and destination
  are distinct objects, as \<^verbatim>\<open>memcpy\<close> requires.
\<close>

definition NUL :: char where
  "NUL = CHR 0x00"

definition strlen :: "char list \<Rightarrow> 64 word option" where
  "strlen s =
     (if NUL \<in> set s then Some (word_of_nat (length (takeWhile (\<lambda>c. c \<noteq> NUL) s)))
      else None)"

definition memcpy :: "char list \<Rightarrow> int \<Rightarrow> char list \<Rightarrow> 64 word \<Rightarrow> char list option" where
  "memcpy dest off src n =
     (if 0 \<le> off \<and> nat off + unat n \<le> length dest \<and> unat n \<le> length src
      then Some (take (nat off) dest @ take (unat n) src @ drop (nat off + unat n) dest)
      else None)"

text \<open>
  \<^verbatim>\<open>int len = strlen(src)\<close> keeps the low 32 bits of the length (\<open>ucast\<close> to a
  \<open>32 word\<close>). In \<^verbatim>\<open>len >= dest_size\<close> and in the third argument of
  \<^verbatim>\<open>memcpy\<close> the \<^verbatim>\<open>int\<close> is converted to \<^verbatim>\<open>size_t\<close>, which sign-extends it
  (\<open>scast\<close>); the comparison is then unsigned. In \<^verbatim>\<open>strmaxcat\<close> the test
  \<^verbatim>\<open>remain <= srclen\<close> compares two \<^verbatim>\<open>int\<close>s and is signed, and
  \<^verbatim>\<open>dest + destlen\<close> offsets the pointer by the signed value of \<^verbatim>\<open>destlen\<close>.
  The result is the returned \<^verbatim>\<open>int\<close> with the contents of the destination
  buffer after the call.
\<close>

definition strmaxcpy :: "char list \<Rightarrow> char list \<Rightarrow> 64 word \<Rightarrow> (int \<times> char list) option" where
  "strmaxcpy dest src dest_size =
     (case strlen src of
        None \<Rightarrow> None
      | Some n \<Rightarrow>
          (let len = (ucast n :: 32 word)
           in if dest_size \<le> (scast len :: 64 word) then Some (- 1, dest)
              else (case memcpy dest 0 src (scast (len + 1)) of
                      None \<Rightarrow> None
                    | Some dest' \<Rightarrow> Some (0, dest'))))"

definition strmaxcat :: "char list \<Rightarrow> char list \<Rightarrow> 64 word \<Rightarrow> (int \<times> char list) option" where
  "strmaxcat dest src dest_size =
     (case strlen dest of
        None \<Rightarrow> None
      | Some dn \<Rightarrow>
          (let destlen = (ucast dn :: 32 word);
               remain = (ucast (dest_size - scast destlen) :: 32 word)
           in (case strlen src of
                 None \<Rightarrow> None
               | Some sn \<Rightarrow>
                   (let srclen = (ucast sn :: 32 word)
                    in if remain \<le>s srclen then Some (- 1, dest)
                       else (case memcpy dest (sint destlen) src (scast (srclen + 1)) of
                               None \<Rightarrow> None
                             | Some dest' \<Rightarrow> Some (0, dest'))))))"

section \<open>Reading 64-bit words\<close>

lemma sint_64_cases:
  "sint (x :: 64 word) =
     (if uint x < 9223372036854775808 then uint x else uint x - 18446744073709551616)"
proof -
  have s: "sint x = (uint x + 9223372036854775808) mod 18446744073709551616 - 9223372036854775808"
    using int_word_sint [of "uint x", where 'a = 64] by simp
  have b: "0 \<le> uint x" "uint x < 18446744073709551616"
    using uint_lt2p [of x] by simp_all
  show ?thesis
  proof (cases "uint x < 9223372036854775808")
    case True
    then have "(uint x + 9223372036854775808) mod 18446744073709551616 = uint x + 9223372036854775808"
      using b by (simp add: mod_pos_pos_trivial)
    with True s show ?thesis by simp
  next
    case False
    then have "(uint x + 9223372036854775808) mod 18446744073709551616
        = ((uint x - 9223372036854775808) + 18446744073709551616) mod 18446744073709551616"
      by (simp add: add.commute)
    also have "\<dots> = (uint x - 9223372036854775808) mod 18446744073709551616"
      by (rule mod_add_self2)
    also have "\<dots> = uint x - 9223372036854775808"
      using False b by (simp add: mod_pos_pos_trivial)
    finally show ?thesis using False s by simp
  qed
qed

lemma sint_small:
  "0 \<le> sint (x :: 64 word) \<and> sint x < 1000000000 \<longleftrightarrow> uint x < 1000000000"
  using uint_lt2p [of x] by (auto simp: sint_64_cases split: if_splits)

lemma normalized_iff: "normalized w \<longleftrightarrow> tv_nsec w < NS_PER_SEC"
  by (simp add: normalized_def NS_PER_SEC_def sint_small word_less_def)

lemma NS_PER_SEC_pos: "0 < NS_PER_SEC"
  by (simp add: NS_PER_SEC_def)

lemma sint_nonneg_uint: "0 \<le> sint (x :: 64 word) \<Longrightarrow> uint x = sint x"
  using uint_lt2p [of x] by (auto simp: sint_64_cases split: if_splits)

lemma uint_nonneg_sint: "uint (x :: 64 word) < 9223372036854775808 \<Longrightarrow> sint x = uint x"
  by (simp add: sint_64_cases)

lemma sint_inj: "sint (x :: 64 word) = sint y \<longleftrightarrow> x = y"
  by (simp add: word_eq_iff_signed [where ?'a = int])

lemma uint_word64_of_int:
  "0 \<le> k \<Longrightarrow> k < 18446744073709551616 \<Longrightarrow> uint (word_of_int k :: 64 word) = k"
  by (simp add: uint_word_of_int mod_pos_pos_trivial)

lemma uint_add_64:
  "uint a + uint b < 18446744073709551616 \<Longrightarrow> uint (a + b :: 64 word) = uint a + uint b"
  using uint_add_lem [of a b] by simp

lemma div_mod_once:
  fixes x c :: int
  assumes "c \<le> x" "x < 2 * c"
  shows "x div c = 1" and "x mod c = x - c"
proof -
  have c: "0 < c" using assms by simp
  have b: "0 \<le> x - c" "x - c < c" using assms by simp_all
  have z: "(x - c) div c = 0" "(x - c) mod c = x - c"
    using b by (rule div_pos_pos_trivial, rule mod_pos_pos_trivial)
  have "x div c = ((x - c) + c) div c" by simp
  also have "\<dots> = (x - c) div c + 1"
    using c by (simp only: div_add_self2)
  finally show "x div c = 1" using z by simp
  have "x mod c = ((x - c) + c) mod c" by simp
  also have "\<dots> = (x - c) mod c"
    by (simp only: mod_add_self2)
  finally show "x mod c = x - c" using z by simp
qed

lemma to_nsecs_of_flat: "timespec_to_nsecs w = word_of_int (flat w)"
  by (simp add: timespec_to_nsecs_def NS_PER_SEC_def flat_def)

lemma uint_to_nsecs:
  assumes "0 \<le> flat w" "flat w < 18446744073709551616"
  shows "uint (timespec_to_nsecs w) = flat w"
  unfolding to_nsecs_of_flat using assms by (rule uint_word64_of_int)

lemma normalized_flat_nonneg:
  assumes "normalized w" "0 \<le> flat w"
  shows "0 \<le> sint (tv_sec w)"
  using assms by (simp add: flat_def normalized_def)

section \<open>Conversions between wall time and elapsed nanoseconds\<close>

text \<open>
  C10. For every elapsed-nanosecond count \<open>n\<close> (an unsigned 64-bit value, so
  never negative), \<^verbatim>\<open>nsecs_to_timespec\<close> gives a normalized wall time, its
  nanosecond field in \<open>[0, 10^9)\<close>, and \<^verbatim>\<open>timespec_to_nsecs\<close> of that
  wall time is \<open>n\<close> again.
\<close>

theorem fromElapsed_toElapsed:
  "normalized (nsecs_to_timespec n) \<and> timespec_to_nsecs (nsecs_to_timespec n) = n"
  by (simp add: normalized_iff nsecs_to_timespec_def timespec_to_nsecs_def
      word_mod_less_divisor NS_PER_SEC_pos div_mult_mod_eq)

text \<open>
  C4. Round trip. For every normalized wall time \<open>w\<close> within the representable
  range, that is, whose flattened value \<open>seconds * 10^9 + nanoseconds\<close> is a
  value of the unsigned 64-bit nanosecond counter (\<open>0 \<le> flat w < 2^64\<close>),
  \<^verbatim>\<open>nsecs_to_timespec\<close> applied to \<^verbatim>\<open>timespec_to_nsecs w\<close> gives \<open>w\<close> back,
  field for field.
\<close>

theorem toElapsed_fromElapsed:
  assumes "normalized w" "0 \<le> flat w" "flat w < 18446744073709551616"
  shows "nsecs_to_timespec (timespec_to_nsecs w) = w"
proof -
  have s: "uint (tv_sec w) = sint (tv_sec w)"
    using normalized_flat_nonneg [OF assms(1,2)] by (rule sint_nonneg_uint)
  have n: "uint (tv_nsec w) = sint (tv_nsec w)"
    using assms(1) by (simp add: normalized_def sint_nonneg_uint)
  have nb: "0 \<le> uint (tv_nsec w)" "uint (tv_nsec w) < 1000000000"
    using assms(1) by (simp_all add: normalized_def n)
  have u: "uint (timespec_to_nsecs w) = uint (tv_sec w) * 1000000000 + uint (tv_nsec w)"
    using uint_to_nsecs [OF assms(2,3)] by (simp add: flat_def s n)
  have "uint (timespec_to_nsecs w div NS_PER_SEC) = uint (tv_sec w)"
    using nb by (simp add: uint_div u NS_PER_SEC_def)
  then have d: "timespec_to_nsecs w div NS_PER_SEC = tv_sec w"
    by (simp add: word_uint_eq_iff)
  have "uint (timespec_to_nsecs w mod NS_PER_SEC) = uint (tv_nsec w)"
    using nb by (simp add: uint_mod u NS_PER_SEC_def)
  then have m: "timespec_to_nsecs w mod NS_PER_SEC = tv_nsec w"
    by (simp add: word_uint_eq_iff)
  show ?thesis
    by (simp add: nsecs_to_timespec_def d m)
qed

theorem toElapsed_fromElapsed_witness:
  "normalized \<lparr>tv_sec = 10, tv_nsec = 500000000\<rparr>
   \<and> 0 \<le> flat \<lparr>tv_sec = 10, tv_nsec = 500000000\<rparr>
   \<and> flat \<lparr>tv_sec = 10, tv_nsec = 500000000\<rparr> < 18446744073709551616
   \<and> nsecs_to_timespec (timespec_to_nsecs \<lparr>tv_sec = 10, tv_nsec = 500000000\<rparr>)
       = \<lparr>tv_sec = 10, tv_nsec = 500000000\<rparr>"
proof -
  have h: "normalized \<lparr>tv_sec = 10, tv_nsec = 500000000\<rparr>"
    "0 \<le> flat \<lparr>tv_sec = 10, tv_nsec = 500000000\<rparr>"
    "flat \<lparr>tv_sec = 10, tv_nsec = 500000000\<rparr> < 18446744073709551616"
    by (simp_all add: normalized_def flat_def)
  from h toElapsed_fromElapsed [OF h] show ?thesis by simp
qed

section \<open>Comparison\<close>

text \<open>
  C6. \<^verbatim>\<open>gsh_time_cmp\<close> compares seconds first and then nanoseconds and is a
  strict total order on wall times, with -1 for LESS, 0 for EQUAL and 1 for
  GREATER: it is transitive (LESS and LESS give LESS), antisymmetric
  (\<open>compare a b\<close> is LESS exactly when \<open>compare b a\<close> is GREATER), and
  consistent with equality (EQUAL exactly when both fields are equal, hence
  \<open>compare a a\<close> is EQUAL); it returns no other value.
\<close>

theorem gsh_time_cmp_total_order:
  "(gsh_time_cmp a b = - 1 \<and> gsh_time_cmp b c = - 1 \<longrightarrow> gsh_time_cmp a c = - 1)
   \<and> (gsh_time_cmp a b = - 1 \<longleftrightarrow> gsh_time_cmp b a = 1)
   \<and> (gsh_time_cmp a b = 0 \<longleftrightarrow> tv_sec a = tv_sec b \<and> tv_nsec a = tv_nsec b)
   \<and> gsh_time_cmp a a = 0
   \<and> gsh_time_cmp a b \<in> {- 1, 0, 1}
   \<and> (gsh_time_cmp a b = - 1 \<longleftrightarrow>
        sint (tv_sec a) < sint (tv_sec b)
        \<or> (tv_sec a = tv_sec b \<and> sint (tv_nsec a) < sint (tv_nsec b)))"
  by (auto simp: gsh_time_cmp_def word_sless_alt sint_inj [symmetric] split: if_splits)

theorem gsh_time_cmp_total_order_witness:
  "gsh_time_cmp \<lparr>tv_sec = 1, tv_nsec = 5\<rparr> \<lparr>tv_sec = 1, tv_nsec = 7\<rparr> = - 1
   \<and> gsh_time_cmp \<lparr>tv_sec = 1, tv_nsec = 7\<rparr> \<lparr>tv_sec = 2, tv_nsec = 0\<rparr> = - 1
   \<and> gsh_time_cmp \<lparr>tv_sec = 1, tv_nsec = 5\<rparr> \<lparr>tv_sec = 2, tv_nsec = 0\<rparr> = - 1
   \<and> gsh_time_cmp \<lparr>tv_sec = 1, tv_nsec = 7\<rparr> \<lparr>tv_sec = 1, tv_nsec = 5\<rparr> = 1"
proof -
  have ab: "gsh_time_cmp \<lparr>tv_sec = 1, tv_nsec = 5\<rparr> \<lparr>tv_sec = 1, tv_nsec = 7\<rparr> = - 1"
    and bc: "gsh_time_cmp \<lparr>tv_sec = 1, tv_nsec = 7\<rparr> \<lparr>tv_sec = 2, tv_nsec = 0\<rparr> = - 1"
    by (simp_all add: gsh_time_cmp_def word_sless_alt)
  from ab bc
    gsh_time_cmp_total_order [of "\<lparr>tv_sec = 1, tv_nsec = 5\<rparr>" "\<lparr>tv_sec = 1, tv_nsec = 7\<rparr>"
      "\<lparr>tv_sec = 2, tv_nsec = 0\<rparr>"]
  show ?thesis by blast
qed

section \<open>Adding an interval\<close>

lemma add_nsecs_to_nsecs:
  "timespec_to_nsecs (timespec_add_nsecs n w) = timespec_to_nsecs w + n"
proof -
  let ?q = "n div NS_PER_SEC" and ?r = "n mod NS_PER_SEC"
  let ?x = "tv_nsec w + ?r"
  have n: "?q * NS_PER_SEC + ?r = n"
    by (rule div_mult_mod_eq)
  have x: "?x div NS_PER_SEC * NS_PER_SEC + ?x mod NS_PER_SEC = ?x"
    by (rule div_mult_mod_eq)
  have a: "(tv_sec w + ?q) * NS_PER_SEC + ?x = tv_sec w * NS_PER_SEC + tv_nsec w + (?q * NS_PER_SEC + ?r)"
    by (simp add: algebra_simps)
  have "(tv_sec w + ?q + ?x div NS_PER_SEC) * NS_PER_SEC + ?x mod NS_PER_SEC
      = (tv_sec w + ?q) * NS_PER_SEC + (?x div NS_PER_SEC * NS_PER_SEC + ?x mod NS_PER_SEC)"
    by (simp add: algebra_simps)
  then have b: "(tv_sec w + ?q + ?x div NS_PER_SEC) * NS_PER_SEC + ?x mod NS_PER_SEC
      = tv_sec w * NS_PER_SEC + tv_nsec w + n"
    unfolding x a n .
  show ?thesis
    using a b n by (simp add: timespec_to_nsecs_def timespec_add_nsecs_def Let_def)
qed

lemma add_nsecs_fields:
  assumes "normalized w" "0 \<le> flat w" "flat w + uint n < 18446744073709551616"
  shows "uint (tv_sec (timespec_add_nsecs n w)) * 1000000000 + uint (tv_nsec (timespec_add_nsecs n w))
           = flat w + uint n
       \<and> uint (tv_sec (timespec_add_nsecs n w)) < 18446744075
       \<and> uint (tv_nsec (timespec_add_nsecs n w)) \<le> 1000000000"
proof -
  let ?q = "uint n div 1000000000" and ?r = "uint n mod 1000000000"
  have nn: "0 \<le> sint (tv_nsec w)" "sint (tv_nsec w) < 1000000000"
    using assms(1) by (simp_all add: normalized_def)
  have N: "uint (tv_nsec w) = sint (tv_nsec w)"
    using nn(1) by (rule sint_nonneg_uint)
  have "0 \<le> sint (tv_sec w)"
    using assms(2) nn by (simp add: flat_def)
  then have S: "uint (tv_sec w) = sint (tv_sec w)"
    by (rule sint_nonneg_uint)
  have f: "flat w = uint (tv_sec w) * 1000000000 + uint (tv_nsec w)"
    by (simp add: flat_def S N)
  have un: "uint n = ?q * 1000000000 + ?r"
    by simp
  have r: "0 \<le> ?r" "?r < 1000000000" "0 \<le> ?q"
    by (simp_all add: pos_imp_zdiv_nonneg_iff)
  have sq: "uint (tv_sec w) + ?q < 18446744074"
    using assms(3) f un r nn N by arith
  have q: "uint (n div NS_PER_SEC) = ?q" and rr: "uint (n mod NS_PER_SEC) = ?r"
    by (simp_all add: uint_div uint_mod NS_PER_SEC_def)
  have s1: "uint (tv_sec w + n div NS_PER_SEC) = uint (tv_sec w) + ?q"
    using sq by (simp add: uint_add_64 q)
  have n1: "uint (tv_nsec w + n mod NS_PER_SEC) = uint (tv_nsec w) + ?r"
    using r nn N by (simp add: uint_add_64 rr)
  show ?thesis
  proof (cases "NS_PER_SEC < tv_nsec w + n mod NS_PER_SEC")
    case True
    then have gt: "1000000000 < uint (tv_nsec w) + ?r"
      using n1 by (simp add: word_less_def NS_PER_SEC_def)
    have lt: "uint (tv_nsec w) + ?r < 2000000000"
      using r nn N by arith
    have d: "(uint (tv_nsec w) + ?r) div 1000000000 = 1"
      using gt lt by (intro div_mod_once) simp_all
    have m: "(uint (tv_nsec w) + ?r) mod 1000000000 = uint (tv_nsec w) + ?r - 1000000000"
      using gt lt by (intro div_mod_once) simp_all
    have d': "uint ((tv_nsec w + n mod NS_PER_SEC) div NS_PER_SEC) = 1"
      using n1 d by (simp add: uint_div NS_PER_SEC_def)
    have m': "uint ((tv_nsec w + n mod NS_PER_SEC) mod NS_PER_SEC) = uint (tv_nsec w) + ?r - 1000000000"
      using n1 m by (simp add: uint_mod NS_PER_SEC_def)
    have s2: "uint (tv_sec w + n div NS_PER_SEC + (tv_nsec w + n mod NS_PER_SEC) div NS_PER_SEC)
         = uint (tv_sec w) + ?q + 1"
      using sq by (simp add: uint_add_64 s1 d')
    have sec: "tv_sec (timespec_add_nsecs n w)
        = tv_sec w + n div NS_PER_SEC + (tv_nsec w + n mod NS_PER_SEC) div NS_PER_SEC"
      and nsec: "tv_nsec (timespec_add_nsecs n w) = (tv_nsec w + n mod NS_PER_SEC) mod NS_PER_SEC"
      using True by (simp_all add: timespec_add_nsecs_def Let_def)
    have A: "uint (tv_sec (timespec_add_nsecs n w)) * 1000000000 + uint (tv_nsec (timespec_add_nsecs n w))
           = flat w + uint n"
      unfolding sec nsec s2 m' f using un by arith
    have B: "uint (tv_sec (timespec_add_nsecs n w)) < 18446744075"
      unfolding sec s2 using sq by arith
    have C: "uint (tv_nsec (timespec_add_nsecs n w)) \<le> 1000000000"
      unfolding nsec m' using lt by arith
    from A B C show ?thesis by simp
  next
    case False
    then have le: "uint (tv_nsec w) + ?r \<le> 1000000000"
      using n1 by (simp add: word_less_def NS_PER_SEC_def)
    have sec: "tv_sec (timespec_add_nsecs n w) = tv_sec w + n div NS_PER_SEC"
      and nsec: "tv_nsec (timespec_add_nsecs n w) = tv_nsec w + n mod NS_PER_SEC"
      using False by (simp_all add: timespec_add_nsecs_def Let_def)
    have A: "uint (tv_sec (timespec_add_nsecs n w)) * 1000000000 + uint (tv_nsec (timespec_add_nsecs n w))
           = flat w + uint n"
      unfolding sec nsec s1 n1 f using un by arith
    have B: "uint (tv_sec (timespec_add_nsecs n w)) < 18446744075"
      unfolding sec s1 using sq by arith
    have C: "uint (tv_nsec (timespec_add_nsecs n w)) \<le> 1000000000"
      unfolding nsec n1 using le by arith
    from A B C show ?thesis by simp
  qed
qed

lemma add_nsecs_flat:
  assumes "normalized w" "0 \<le> flat w" "flat w + uint n < 18446744073709551616"
  shows "flat (timespec_add_nsecs n w) = flat w + uint n"
proof -
  have f: "uint (tv_sec (timespec_add_nsecs n w)) * 1000000000 + uint (tv_nsec (timespec_add_nsecs n w))
           = flat w + uint n"
    "uint (tv_sec (timespec_add_nsecs n w)) < 18446744075"
    "uint (tv_nsec (timespec_add_nsecs n w)) \<le> 1000000000"
    using add_nsecs_fields [OF assms] by simp_all
  have "sint (tv_sec (timespec_add_nsecs n w)) = uint (tv_sec (timespec_add_nsecs n w))"
    using f(2) by (simp add: uint_nonneg_sint)
  moreover have "sint (tv_nsec (timespec_add_nsecs n w)) = uint (tv_nsec (timespec_add_nsecs n w))"
    using f(3) by (simp add: uint_nonneg_sint)
  ultimately show ?thesis
    using f(1) by (simp add: flat_def)
qed

lemma add_nsecs_spec_case:
  "timespec_add_nsecs 600000000 \<lparr>tv_sec = 10, tv_nsec = 500000000\<rparr>
     = \<lparr>tv_sec = 11, tv_nsec = 100000000\<rparr>"
  by (simp add: timespec_add_nsecs_def NS_PER_SEC_def Let_def)

lemma uint_sub_64: "uint y \<le> uint x \<Longrightarrow> uint (x - y :: 64 word) = uint x - uint y"
  using uint_sub_lem [of y x] by simp

lemma normalized_uint: "normalized w \<longleftrightarrow> uint (tv_nsec w) < 1000000000"
  by (simp add: normalized_def sint_small)

lemma small_sless:
  assumes "uint (x :: 64 word) < 1000000000" "uint (y :: 64 word) < 1000000000"
  shows "x <s y \<longleftrightarrow> uint x < uint y"
  using assms by (simp add: word_sless_alt uint_nonneg_sint)

lemma uint_mod_NS: "uint (n mod NS_PER_SEC) < 1000000000"
  by (simp add: uint_mod NS_PER_SEC_def)

lemma sub_nsecs_normalized:
  assumes "normalized w"
  shows "normalized (timespec_sub_nsecs n w)"
proof -
  have a: "uint (tv_nsec w) < 1000000000"
    using assms by (simp add: normalized_uint)
  note b = uint_mod_NS [of n]
  show ?thesis
  proof (cases "tv_nsec w <s n mod NS_PER_SEC")
    case True
    then have lt: "uint (tv_nsec w) < uint (n mod NS_PER_SEC)"
      using small_sless [OF a b] by simp
    then have "uint (n mod NS_PER_SEC - tv_nsec w) = uint (n mod NS_PER_SEC) - uint (tv_nsec w)"
      by (simp add: uint_sub_64)
    then have "uint (n mod NS_PER_SEC - tv_nsec w) < 1000000000"
      using b uint_ge_0 [of "tv_nsec w"] by linarith
    then show ?thesis
      using True by (simp add: timespec_sub_nsecs_def nsecs_to_timespec_def Let_def normalized_uint)
  next
    case False
    then have ge: "uint (n mod NS_PER_SEC) \<le> uint (tv_nsec w)"
      using small_sless [OF a b] by simp
    then have "uint (tv_nsec w - n mod NS_PER_SEC) = uint (tv_nsec w) - uint (n mod NS_PER_SEC)"
      by (simp add: uint_sub_64)
    then have "uint (tv_nsec w - n mod NS_PER_SEC) < 1000000000"
      using a uint_ge_0 [of "n mod NS_PER_SEC"] by linarith
    then show ?thesis
      using False by (simp add: timespec_sub_nsecs_def nsecs_to_timespec_def Let_def normalized_uint)
  qed
qed

lemma sub_nsecs_no_borrow:
  assumes "\<not> tv_nsec w <s n mod NS_PER_SEC"
  shows "timespec_to_nsecs (timespec_sub_nsecs n w) = timespec_to_nsecs w - n"
proof -
  have n: "n div NS_PER_SEC * NS_PER_SEC + n mod NS_PER_SEC = n"
    by (rule div_mult_mod_eq)
  have "(tv_sec w - n div NS_PER_SEC) * NS_PER_SEC + (tv_nsec w - n mod NS_PER_SEC)
      = tv_sec w * NS_PER_SEC + tv_nsec w - (n div NS_PER_SEC * NS_PER_SEC + n mod NS_PER_SEC)"
    by (simp add: algebra_simps)
  then show ?thesis
    using assms unfolding n
    by (simp add: timespec_to_nsecs_def timespec_sub_nsecs_def nsecs_to_timespec_def Let_def)
qed

lemma add_nsecs_normalized_iff:
  assumes "normalized w"
  shows "normalized (timespec_add_nsecs n w)
     \<longleftrightarrow> uint (tv_nsec w) + uint n mod 1000000000 \<noteq> 1000000000"
proof -
  have a: "uint (tv_nsec w) < 1000000000"
    using assms by (simp add: normalized_uint)
  have b: "uint (n mod NS_PER_SEC) < 1000000000" "uint (n mod NS_PER_SEC) = uint n mod 1000000000"
    by (simp_all add: uint_mod NS_PER_SEC_def)
  have s: "uint (tv_nsec w + n mod NS_PER_SEC) = uint (tv_nsec w) + uint (n mod NS_PER_SEC)"
    using a b(1) by (simp add: uint_add_64)
  show ?thesis
  proof (cases "NS_PER_SEC < tv_nsec w + n mod NS_PER_SEC")
    case True
    then have "1000000000 < uint (tv_nsec w) + uint (n mod NS_PER_SEC)"
      using s by (simp add: word_less_def NS_PER_SEC_def)
    moreover have "uint ((tv_nsec w + n mod NS_PER_SEC) mod NS_PER_SEC) < 1000000000"
      by (simp add: uint_mod NS_PER_SEC_def)
    ultimately show ?thesis
      using True b(2) by (simp add: timespec_add_nsecs_def Let_def normalized_uint)
  next
    case False
    then have "uint (tv_nsec w) + uint (n mod NS_PER_SEC) \<le> 1000000000"
      using s by (simp add: word_less_def NS_PER_SEC_def)
    then show ?thesis
      using False s b(2) by (auto simp: timespec_add_nsecs_def Let_def normalized_uint)
  qed
qed

text \<open>
  C2. The claim: for normalized \<open>w\<close>, the wall time produced by
  \<^verbatim>\<open>timespec_add_nsecs\<close> (and by \<^verbatim>\<open>timespec_sub_nsecs\<close>) has its nanosecond
  field in \<open>[0, 10^9)\<close>. The code at \<open>w = {sec: 10, ns: 500_000_000}\<close> and
  \<open>n = 500_000_000\<close>: the sum of the nanoseconds is exactly \<open>10^9\<close>, the test
  \<^verbatim>\<open>tv_nsec > NS_PER_SEC\<close> is false, no carry is made, and the result
  \<open>{sec: 10, ns: 1_000_000_000}\<close> is not normalized. (\<open>add_nsecs_normalized_iff\<close>:
  this is the only way the addition leaves the range; \<open>sub_nsecs_normalized\<close>:
  the subtraction never does.)
\<close>

theorem addNanos_not_normalized:
  "normalized \<lparr>tv_sec = 10, tv_nsec = 500000000\<rparr>
   \<and> timespec_add_nsecs 500000000 \<lparr>tv_sec = 10, tv_nsec = 500000000\<rparr>
       = \<lparr>tv_sec = 10, tv_nsec = 1000000000\<rparr>
   \<and> \<not> normalized (timespec_add_nsecs 500000000 \<lparr>tv_sec = 10, tv_nsec = 500000000\<rparr>)"
  by (simp add: normalized_def timespec_add_nsecs_def NS_PER_SEC_def Let_def)

text \<open>
  The wall time that represents \<open>toElapsed w + n\<close> with the nanosecond
  overflow carried into the seconds is \<^verbatim>\<open>nsecs_to_timespec\<close> of that sum.
  \<open>add_nsecs_carry\<close>: within the representable range \<^verbatim>\<open>timespec_add_nsecs\<close>
  returns exactly this wall time, unless the nanoseconds sum to exactly
  \<open>10^9\<close>.
\<close>

lemma nsecs_to_timespec_fields:
  assumes "uint (tv_nsec (r :: timespec)) < 1000000000"
    and "uint x = uint (tv_sec r) * 1000000000 + uint (tv_nsec r)"
  shows "nsecs_to_timespec x = r"
proof -
  have nb: "0 \<le> uint (tv_nsec r)"
    by simp
  have "uint (x div NS_PER_SEC) = uint (tv_sec r)"
    using nb assms(1) by (simp add: uint_div assms(2) NS_PER_SEC_def)
  then have d: "x div NS_PER_SEC = tv_sec r"
    by (simp add: word_uint_eq_iff)
  have "uint (x mod NS_PER_SEC) = uint (tv_nsec r)"
    using nb assms(1) by (simp add: uint_mod assms(2) NS_PER_SEC_def)
  then have m: "x mod NS_PER_SEC = tv_nsec r"
    by (simp add: word_uint_eq_iff)
  show ?thesis
    by (simp add: nsecs_to_timespec_def d m)
qed

lemma add_nsecs_carry:
  assumes "normalized w" "0 \<le> flat w" "flat w + uint n < 18446744073709551616"
    and "uint (tv_nsec w) + uint n mod 1000000000 \<noteq> 1000000000"
  shows "timespec_add_nsecs n w = nsecs_to_timespec (timespec_to_nsecs w + n)"
proof -
  let ?r = "timespec_add_nsecs n w"
  have f: "uint (tv_sec ?r) * 1000000000 + uint (tv_nsec ?r) = flat w + uint n"
    using add_nsecs_fields [OF assms(1-3)] by simp
  have nr: "uint (tv_nsec ?r) < 1000000000"
    using add_nsecs_normalized_iff [OF assms(1), of n] assms(4) by (simp add: normalized_uint)
  have "0 \<le> uint n"
    by simp
  then have "flat w < 18446744073709551616"
    using assms(3) by linarith
  then have u: "uint (timespec_to_nsecs w) = flat w"
    using assms(2) by (intro uint_to_nsecs)
  have "uint (timespec_to_nsecs w + n) = uint (timespec_to_nsecs w) + uint n"
    using assms(3) by (intro uint_add_64) (simp only: u)
  then have "uint (timespec_to_nsecs w + n) = uint (tv_sec ?r) * 1000000000 + uint (tv_nsec ?r)"
    by (simp only: u f)
  with nr have "nsecs_to_timespec (timespec_to_nsecs w + n) = ?r"
    by (rule nsecs_to_timespec_fields)
  then show ?thesis
    by (rule sym)
qed

text \<open>
  C7. The claim: for every normalized wall time \<open>w\<close> and every interval \<open>n\<close>
  within the representable range, the wall time produced by
  \<^verbatim>\<open>timespec_add_nsecs\<close> represents \<open>toElapsed w + n\<close> with the nanosecond
  overflow carried into the seconds. The code at \<open>w = {sec: 10, ns:
  500_000_000}\<close> and \<open>n = 500_000_000\<close>, within the range: the nanoseconds sum
  to \<open>10^9\<close>, the test \<^verbatim>\<open>tv_nsec > NS_PER_SEC\<close> is false and nothing is
  carried; the code returns \<open>{sec: 10, ns: 1_000_000_000}\<close> where the wall
  time of 11_000_000_000 nanoseconds is \<open>{sec: 11, ns: 0}\<close>. (The flattened
  value is still the sum, \<open>add_nsecs_flat\<close>; away from this boundary the
  carry is made, \<open>add_nsecs_carry\<close>, and the spec's case 600_000_000 gives
  \<open>{sec: 11, ns: 100_000_000}\<close>, \<open>add_nsecs_spec_case\<close>.)
\<close>

theorem addNanos_boundary_no_carry:
  "normalized \<lparr>tv_sec = 10, tv_nsec = 500000000\<rparr>
   \<and> 0 \<le> flat \<lparr>tv_sec = 10, tv_nsec = 500000000\<rparr>
   \<and> flat \<lparr>tv_sec = 10, tv_nsec = 500000000\<rparr> + uint (500000000 :: 64 word)
       < 18446744073709551616
   \<and> timespec_to_nsecs \<lparr>tv_sec = 10, tv_nsec = 500000000\<rparr> + 500000000 = 11000000000
   \<and> nsecs_to_timespec 11000000000 = \<lparr>tv_sec = 11, tv_nsec = 0\<rparr>
   \<and> tv_sec (timespec_add_nsecs 500000000 \<lparr>tv_sec = 10, tv_nsec = 500000000\<rparr>) = 10
   \<and> tv_nsec (timespec_add_nsecs 500000000 \<lparr>tv_sec = 10, tv_nsec = 500000000\<rparr>) = 1000000000
   \<and> timespec_add_nsecs 500000000 \<lparr>tv_sec = 10, tv_nsec = 500000000\<rparr>
       \<noteq> nsecs_to_timespec (timespec_to_nsecs \<lparr>tv_sec = 10, tv_nsec = 500000000\<rparr> + 500000000)"
  by (simp add: normalized_def flat_def timespec_add_nsecs_def timespec_to_nsecs_def
      nsecs_to_timespec_def NS_PER_SEC_def Let_def)

section \<open>Subtracting an interval\<close>

text \<open>
  C1. The claim: for normalized \<open>w\<close> and \<open>n \<le> toElapsed w\<close>, the wall time
  produced by \<^verbatim>\<open>timespec_sub_nsecs\<close> flattens to \<open>toElapsed w - n\<close>. The code
  at \<open>w = {sec: 10, ns: 100}\<close> and \<open>n = 200\<close>: the borrow branch is taken, one
  second more is subtracted, and the nanosecond field is set to
  \<^verbatim>\<open>ts.tv_nsec - t->tv_nsec\<close> = 100, so the result is \<open>{sec: 9, ns: 100}\<close>, which
  flattens to 9_000_000_100 and not to 10_000_000_100 - 200 = 9_999_999_900.
  (\<open>sub_nsecs_no_borrow\<close>: without a borrow the subtraction is exact.)
\<close>

theorem subNanos_borrow_wrong:
  "normalized \<lparr>tv_sec = 10, tv_nsec = 100\<rparr>
   \<and> uint (200 :: 64 word) \<le> flat \<lparr>tv_sec = 10, tv_nsec = 100\<rparr>
   \<and> flat \<lparr>tv_sec = 10, tv_nsec = 100\<rparr> - uint (200 :: 64 word) = 9999999900
   \<and> timespec_sub_nsecs 200 \<lparr>tv_sec = 10, tv_nsec = 100\<rparr> = \<lparr>tv_sec = 9, tv_nsec = 100\<rparr>
   \<and> flat (timespec_sub_nsecs 200 \<lparr>tv_sec = 10, tv_nsec = 100\<rparr>) = 9000000100
   \<and> timespec_to_nsecs (timespec_sub_nsecs 200 \<lparr>tv_sec = 10, tv_nsec = 100\<rparr>)
       \<noteq> timespec_to_nsecs \<lparr>tv_sec = 10, tv_nsec = 100\<rparr> - 200"
  by (simp add: normalized_def flat_def timespec_sub_nsecs_def nsecs_to_timespec_def
      timespec_to_nsecs_def NS_PER_SEC_def Let_def word_sless_alt)

section \<open>Difference of two wall times\<close>

lemma sint_antisym: "sint (x :: 64 word) \<le> sint y \<Longrightarrow> sint y \<le> sint x \<Longrightarrow> x = y"
  by (simp add: sint_inj [symmetric])

lemma timespec_diff_sym: "timespec_diff a b = timespec_diff b a"
proof -
  consider (lt) "sint (tv_sec a) < sint (tv_sec b)"
    | (gt) "sint (tv_sec b) < sint (tv_sec a)"
    | (eq_le) "tv_sec a = tv_sec b" "sint (tv_nsec a) < sint (tv_nsec b)"
    | (eq_ge) "tv_sec a = tv_sec b" "sint (tv_nsec b) < sint (tv_nsec a)"
    | (eq) "tv_sec a = tv_sec b" "tv_nsec a = tv_nsec b"
    using sint_antisym [of "tv_sec a" "tv_sec b"] sint_antisym [of "tv_nsec a" "tv_nsec b"]
    by fastforce
  then show ?thesis
  proof cases
    case lt
    then show ?thesis by (auto simp: timespec_diff_def word_sless_alt word_sle_eq)
  next
    case gt
    then show ?thesis by (auto simp: timespec_diff_def word_sless_alt word_sle_eq)
  next
    case eq_le
    then show ?thesis by (simp add: timespec_diff_def word_sless_alt word_sle_eq)
  next
    case eq_ge
    then show ?thesis by (simp add: timespec_diff_def word_sless_alt word_sle_eq)
  next
    case eq
    then show ?thesis by (simp add: timespec_diff_def)
  qed
qed

lemma flat_order:
  assumes "normalized a" "normalized b"
  shows "flat a \<le> flat b \<longleftrightarrow>
     tv_sec a <s tv_sec b \<or> (tv_sec b = tv_sec a \<and> tv_nsec a \<le>s tv_nsec b)"
proof -
  have "tv_sec b = tv_sec a \<longleftrightarrow> sint (tv_sec b) = sint (tv_sec a)"
    by (simp add: sint_inj)
  then show ?thesis
    using assms unfolding word_sless_alt word_sle_eq flat_def normalized_def by auto
qed

lemma timespec_diff_of_int:
  assumes "normalized a" "normalized b"
  shows "timespec_diff a b = word_of_int \<bar>flat a - flat b\<bar>"
proof (cases "flat a \<le> flat b")
  case True
  then have c: "tv_sec a <s tv_sec b \<or> (tv_sec b = tv_sec a \<and> tv_nsec a \<le>s tv_nsec b)"
    using flat_order [OF assms] by simp
  have "timespec_diff a b
      = (tv_sec b - tv_sec a) * NS_PER_SEC + (tv_nsec b - tv_nsec a)"
    unfolding timespec_diff_def using c by (rule if_P)
  also have "\<dots> = word_of_int (flat b - flat a)"
    by (simp add: flat_def NS_PER_SEC_def algebra_simps)
  finally show ?thesis using True by (simp add: abs_if)
next
  case False
  then have c: "\<not> (tv_sec a <s tv_sec b \<or> (tv_sec b = tv_sec a \<and> tv_nsec a \<le>s tv_nsec b))"
    using flat_order [OF assms] by simp
  have "timespec_diff a b
      = (tv_sec a - tv_sec b) * NS_PER_SEC + (tv_nsec a - tv_nsec b)"
    unfolding timespec_diff_def using c by (rule if_not_P)
  also have "\<dots> = word_of_int (flat a - flat b)"
    by (simp add: flat_def NS_PER_SEC_def algebra_simps)
  finally show ?thesis using False by (simp add: abs_if)
qed

text \<open>
  C5, as stated, at a concrete input. The claim: for all normalized wall times
  \<open>a\<close> and \<open>b\<close>, \<^verbatim>\<open>timespec_diff\<close> returns the absolute nanosecond distance
  \<open>|toElapsed a - toElapsed b|\<close>. For \<open>a = {sec: -1, ns: 0}\<close> and
  \<open>b = {sec: 20_000_000_000, ns: 0}\<close>, both normalized, the distance is
  20_000_000_001_000_000_000, which is no value of the 64-bit result: the
  code returns 1_553_255_927_290_448_384. That is neither the distance of the
  mathematical flattened values nor the distance 16_893_488_146_419_103_232 of
  the two 64-bit values \<^verbatim>\<open>timespec_to_nsecs\<close> returns.
\<close>

theorem timespec_diff_abs_counterexample:
  "normalized \<lparr>tv_sec = - 1, tv_nsec = 0\<rparr>
   \<and> normalized \<lparr>tv_sec = 20000000000, tv_nsec = 0\<rparr>
   \<and> \<bar>flat \<lparr>tv_sec = - 1, tv_nsec = 0\<rparr> - flat \<lparr>tv_sec = 20000000000, tv_nsec = 0\<rparr>\<bar>
       = 20000000001000000000
   \<and> uint (timespec_diff \<lparr>tv_sec = - 1, tv_nsec = 0\<rparr> \<lparr>tv_sec = 20000000000, tv_nsec = 0\<rparr>)
       = 1553255927290448384
   \<and> \<bar>uint (timespec_to_nsecs \<lparr>tv_sec = - 1, tv_nsec = 0\<rparr>)
        - uint (timespec_to_nsecs \<lparr>tv_sec = 20000000000, tv_nsec = 0\<rparr>)\<bar>
       = 16893488146419103232"
  by (simp add: normalized_def flat_def timespec_diff_def timespec_to_nsecs_def NS_PER_SEC_def
      word_sless_alt word_sle_eq)

text \<open>
  C5, amended. For all normalized wall times \<open>a\<close> and \<open>b\<close>,
  \<^verbatim>\<open>timespec_diff\<close> returns the absolute distance of their flattened values
  modulo \<open>2^64\<close>, hence the absolute distance itself whenever that is below
  \<open>2^64\<close> nanoseconds, regardless of the argument order:
  \<open>diff a b = diff b a\<close>; and \<open>diff {sec: 5, ns: 0} {sec: 3, ns: 0}\<close> is
  2_000_000_000.
\<close>

theorem timespec_diff_abs:
  assumes "normalized a" "normalized b"
  shows "uint (timespec_diff a b) = \<bar>flat a - flat b\<bar> mod 18446744073709551616
       \<and> (\<bar>flat a - flat b\<bar> < 18446744073709551616 \<longrightarrow>
            uint (timespec_diff a b) = \<bar>flat a - flat b\<bar>)
       \<and> timespec_diff a b = timespec_diff b a
       \<and> timespec_diff \<lparr>tv_sec = 5, tv_nsec = 0\<rparr> \<lparr>tv_sec = 3, tv_nsec = 0\<rparr> = 2000000000"
proof -
  have m: "uint (timespec_diff a b) = \<bar>flat a - flat b\<bar> mod 18446744073709551616"
    unfolding timespec_diff_of_int [OF assms] by (simp add: uint_word_of_int)
  have "uint (timespec_diff a b) = \<bar>flat a - flat b\<bar>"
    if "\<bar>flat a - flat b\<bar> < 18446744073709551616"
    unfolding timespec_diff_of_int [OF assms] using that by (intro uint_word64_of_int) simp_all
  moreover have "timespec_diff \<lparr>tv_sec = 5, tv_nsec = 0\<rparr> \<lparr>tv_sec = 3, tv_nsec = 0\<rparr> = 2000000000"
    by (simp add: timespec_diff_def NS_PER_SEC_def word_sless_alt word_sle_eq)
  ultimately show ?thesis
    using m timespec_diff_sym [of a b] by blast
qed

theorem timespec_diff_abs_witness:
  "normalized \<lparr>tv_sec = 5, tv_nsec = 0\<rparr> \<and> normalized \<lparr>tv_sec = 3, tv_nsec = 0\<rparr>
   \<and> \<bar>flat \<lparr>tv_sec = 5, tv_nsec = 0\<rparr> - flat \<lparr>tv_sec = 3, tv_nsec = 0\<rparr>\<bar> < 18446744073709551616
   \<and> uint (timespec_diff \<lparr>tv_sec = 5, tv_nsec = 0\<rparr> \<lparr>tv_sec = 3, tv_nsec = 0\<rparr>)
       = \<bar>flat \<lparr>tv_sec = 5, tv_nsec = 0\<rparr> - flat \<lparr>tv_sec = 3, tv_nsec = 0\<rparr>\<bar>"
proof -
  have h: "normalized \<lparr>tv_sec = 5, tv_nsec = 0\<rparr>" "normalized \<lparr>tv_sec = 3, tv_nsec = 0\<rparr>"
    by (simp_all add: normalized_def)
  have r: "\<bar>flat \<lparr>tv_sec = 5, tv_nsec = 0\<rparr> - flat \<lparr>tv_sec = 3, tv_nsec = 0\<rparr>\<bar> < 18446744073709551616"
    by (simp add: flat_def)
  from h r timespec_diff_abs [OF h] show ?thesis by blast
qed

section \<open>Fail-fast wrappers\<close>

lemma logged_call_ok:
  "logged_call ok_fmt err_fmt 0 s =
     ([LogFullDebug COMPONENT_RW_LOCK ok_fmt
         [Arg_ptr (site_ptr s), Arg_str (site_expr s), Arg_str (site_file s), Arg_int (site_line s)]],
      Returns ())"
  by (simp add: logged_call_def)

lemma logged_call_fail:
  "rc \<noteq> 0 \<Longrightarrow> logged_call ok_fmt err_fmt rc s =
     ([LogCrit COMPONENT_RW_LOCK err_fmt
         [Arg_int rc, Arg_ptr (site_ptr s), Arg_str (site_expr s), Arg_str (site_file s),
          Arg_int (site_line s)]],
      Aborts)"
  by (simp add: logged_call_def)

lemma instrumented_sync_shape:
  assumes "m \<in> set instrumented_sync"
  shows "\<exists>ok_fmt err_fmt. m = logged_call ok_fmt err_fmt"
  using assms
  unfolding instrumented_sync_def PTHREAD_RWLOCK_init_def PTHREAD_RWLOCK_destroy_def
      PTHREAD_RWLOCK_wrlock_def PTHREAD_RWLOCK_rdlock_def PTHREAD_RWLOCK_unlock_def
      PTHREAD_MUTEX_lock_def PTHREAD_MUTEX_unlock_def PTHREAD_MUTEX_init_def
      PTHREAD_MUTEX_destroy_def PTHREAD_COND_init_def PTHREAD_COND_destroy_def
  by (elim set_ConsD [elim_format] disjE) (simp_all, blast+)

text \<open>
  C3. For every instrumented operation (mutex, rwlock and condition variable
  init and destroy, mutex lock, rwlock wrlock and rdlock, and both unlocks)
  and every return code \<open>rc\<close> of the pthread primitive: if \<open>rc = 0\<close> the
  operation emits one full-debug record and returns; if \<open>rc \<noteq> 0\<close> it emits
  one critical record that carries \<open>rc\<close> and aborts the process. It returns
  normally only if the primitive succeeded.
\<close>

theorem instrumented_sync_fail_fast:
  assumes "m \<in> set instrumented_sync"
  shows "(rc = 0 \<longrightarrow>
            (\<exists>r. m rc s = ([r], Returns ()) \<and> log_level r = NIV_FULL_DEBUG))
       \<and> (rc \<noteq> 0 \<longrightarrow>
            (\<exists>r. m rc s = ([r], Aborts) \<and> log_level r = NIV_CRIT \<and> Arg_int rc \<in> set (log_args r)))
       \<and> (snd (m rc s) = Returns () \<longleftrightarrow> rc = 0)"
proof -
  from instrumented_sync_shape [OF assms]
  obtain ok_fmt err_fmt where m: "m = logged_call ok_fmt err_fmt" by blast
  show ?thesis
  proof (cases "rc = 0")
    case True
    then show ?thesis
      by (simp add: m logged_call_ok LogFullDebug_def)
  next
    case False
    then show ?thesis
      by (simp add: m logged_call_fail LogCrit_def)
  qed
qed

theorem instrumented_sync_fail_fast_witness:
  "PTHREAD_MUTEX_lock \<in> set instrumented_sync
   \<and> snd (PTHREAD_MUTEX_lock 0 \<lparr>site_ptr = 4096, site_expr = ''&m'', site_file = ''a.c'', site_line = 7\<rparr>)
       = Returns ()
   \<and> snd (PTHREAD_MUTEX_lock 22 \<lparr>site_ptr = 4096, site_expr = ''&m'', site_file = ''a.c'', site_line = 7\<rparr>)
       \<noteq> Returns ()"
proof -
  have h: "PTHREAD_MUTEX_lock \<in> set instrumented_sync"
    by (simp add: instrumented_sync_def)
  from h
    instrumented_sync_fail_fast [OF h, of 0 "\<lparr>site_ptr = 4096, site_expr = ''&m'', site_file = ''a.c'', site_line = 7\<rparr>"]
    instrumented_sync_fail_fast [OF h, of 22 "\<lparr>site_ptr = 4096, site_expr = ''&m'', site_file = ''a.c'', site_line = 7\<rparr>"]
  show ?thesis by simp
qed

lemma now_success:
  "fst (clock_gettime ts) = 0 \<Longrightarrow>
     now ndebug clock_gettime ts = ([], Returns (snd (clock_gettime ts)))"
  by (auto simp: now_def split: prod.splits)

lemma now_failure_asserting:
  "fst (clock_gettime ts) \<noteq> 0 \<Longrightarrow>
     now False clock_gettime ts = ([LogCrit COMPONENT_MAIN ''Failed to get timestamp'' []], Aborts)"
  by (auto simp: now_def c_assert_def split: prod.splits)

lemma now_failure_NDEBUG:
  "fst (clock_gettime ts) \<noteq> 0 \<Longrightarrow>
     now True clock_gettime ts
       = ([LogCrit COMPONENT_MAIN ''Failed to get timestamp'' []], Returns (snd (clock_gettime ts)))"
  by (auto simp: now_def c_assert_def split: prod.splits)

text \<open>
  C8. The claim: \<^verbatim>\<open>now\<close> returns the clock's value when the clock source
  returns 0, and when the clock source fails it logs critically and aborts
  the process, never returning normally with a zero or stale time. The code
  ends its failure branch with \<^verbatim>\<open>assert(0)\<close>, not with the \<^verbatim>\<open>abort()\<close> of the
  lock macros. In a build that defines \<^verbatim>\<open>NDEBUG\<close>, with a clock source that
  returns -1 and leaves the buffer \<open>{sec: 0, ns: 0}\<close> untouched, \<^verbatim>\<open>now\<close>
  emits the critical record and returns normally with that stale buffer.
  (\<open>now_success\<close>: the success path is as claimed in every build;
  \<open>now_failure_asserting\<close>: without \<^verbatim>\<open>NDEBUG\<close> the failure path aborts.)
\<close>

theorem now_NDEBUG_returns_stale:
  "now True (\<lambda>ts. (- 1, ts)) \<lparr>tv_sec = 0, tv_nsec = 0\<rparr>
     = ([LogCrit COMPONENT_MAIN ''Failed to get timestamp'' []],
        Returns \<lparr>tv_sec = 0, tv_nsec = 0\<rparr>)
   \<and> now False (\<lambda>ts. (- 1, ts)) \<lparr>tv_sec = 0, tv_nsec = 0\<rparr>
     = ([LogCrit COMPONENT_MAIN ''Failed to get timestamp'' []], Aborts)"
  by (simp add: now_def c_assert_def)

section \<open>Bounded string copy and append\<close>

text \<open>
  \<open>strmaxcpy_in_range\<close> and \<open>strmaxcat_in_range\<close> below: while every length
  and capacity involved fits the \<^verbatim>\<open>int\<close> it is stored in, \<^verbatim>\<open>strmaxcpy\<close>
  succeeds exactly when \<open>strlen src < dest_size\<close> and \<^verbatim>\<open>strmaxcat\<close> exactly
  when \<open>strlen dest + strlen src < dest_size\<close>; on success the destination
  holds the string with its terminator, on failure -1 is returned and the
  destination is unchanged.
\<close>

lemma takeWhile_NUL: "NUL \<notin> set s \<Longrightarrow> takeWhile (\<lambda>c. c \<noteq> NUL) (s @ NUL # rest) = s"
  by (induction s) auto

lemma strlen_string: "NUL \<notin> set s \<Longrightarrow> strlen (s @ NUL # rest) = Some (word_of_nat (length s))"
  by (simp add: strlen_def takeWhile_NUL)

lemma int_of_size:
  "n < 18446744073709551616 \<Longrightarrow> (ucast (word_of_nat n :: 64 word) :: 32 word) = word_of_nat n"
  by (simp add: unsigned_of_nat take_bit_nat_eq_self)

lemma size_of_int:
  "n < 2147483648 \<Longrightarrow> (scast (word_of_nat n :: 32 word) :: 64 word) = word_of_nat n"
  by (simp add: signed_of_nat signed_take_bit_int_eq_self)

lemma sint_of_len: "n < 2147483648 \<Longrightarrow> sint (word_of_nat n :: 32 word) = int n"
  by (simp add: signed_of_nat signed_take_bit_int_eq_self)

lemma unat_of_len: "n < 18446744073709551616 \<Longrightarrow> unat (word_of_nat n :: 64 word) = n"
  by (simp add: unat_of_nat)

lemma int_of_dest_size:
  assumes "unat (dest_size :: 64 word) < 2147483648"
  shows "(ucast dest_size :: 32 word) = word_of_nat (unat dest_size)"
proof -
  have "(ucast (word_of_nat (unat dest_size) :: 64 word) :: 32 word) = word_of_nat (unat dest_size)"
    using assms by (intro int_of_size) simp
  then show ?thesis by (simp only: of_nat_unat ucast_id)
qed

lemma remain_value:
  assumes "dn < unat (dest_size :: 64 word)" "unat (dest_size :: 64 word) < 2147483648"
  shows "(ucast dest_size :: 32 word) - word_of_nat dn = word_of_nat (unat dest_size - dn)"
proof -
  have "(word_of_nat (unat dest_size - dn) :: 32 word) = word_of_nat (unat dest_size) - word_of_nat dn"
    using assms(1) by (simp only: of_nat_diff less_imp_le)
  then show ?thesis
    by (simp only: int_of_dest_size [OF assms(2)])
qed

lemma of_len_le_size:
  assumes "dn < unat (dest_size :: 64 word)" "unat (dest_size :: 64 word) < 2147483648"
  shows "(word_of_nat dn :: 64 word) \<le> dest_size"
proof -
  have "dn < 18446744073709551616" using assms by simp
  then have "unat (word_of_nat dn :: 64 word) = dn" by (rule unat_of_len)
  then show ?thesis using assms(1) by (simp only: word_le_nat_alt less_imp_le)
qed

lemma unat_size_minus_len:
  assumes "dn < unat (dest_size :: 64 word)" "unat (dest_size :: 64 word) < 2147483648"
  shows "unat (dest_size - word_of_nat dn) = unat dest_size - dn"
proof -
  have "dn < 18446744073709551616" using assms by simp
  then have "unat (word_of_nat dn :: 64 word) = dn" by (rule unat_of_len)
  then show ?thesis using unat_sub [OF of_len_le_size [OF assms]] by (simp only:)
qed

lemma remain_value_wide:
  assumes "dn < unat (dest_size :: 64 word)" "unat (dest_size :: 64 word) < 2147483648"
  shows "(ucast (dest_size - word_of_nat dn) :: 32 word) = word_of_nat (unat dest_size - dn)"
proof -
  have b: "unat dest_size - dn < 18446744073709551616"
    using assms(2) by simp
  have e: "dest_size - word_of_nat dn = word_of_nat (unat dest_size - dn)"
    by (simp only: word_unat_eq_iff unat_size_minus_len [OF assms] unat_of_len [OF b])
  from b have "(ucast (word_of_nat (unat dest_size - dn) :: 64 word) :: 32 word)
       = word_of_nat (unat dest_size - dn)"
    by (rule int_of_size)
  then show ?thesis
    by (simp only: e [symmetric])
qed

lemma strmaxcpy_in_range:
  assumes "NUL \<notin> set s" "length s < 2147483647" "length dest = unat dest_size"
  shows "strmaxcpy dest (s @ NUL # rest) dest_size =
     (if length s < unat dest_size then Some (0, s @ NUL # drop (Suc (length s)) dest)
      else Some (- 1, dest))"
proof -
  let ?n = "length s"
  have len: "(ucast (word_of_nat ?n :: 64 word) :: 32 word) = word_of_nat ?n"
    using assms(2) by (simp add: int_of_size)
  have sz: "(scast (word_of_nat ?n :: 32 word) :: 64 word) = word_of_nat ?n"
    using assms(2) by (simp add: size_of_int)
  have cmp: "dest_size \<le> (word_of_nat ?n :: 64 word) \<longleftrightarrow> unat dest_size \<le> ?n"
    using assms(2) by (simp add: word_le_nat_alt unat_of_len)
  have "(word_of_nat ?n :: 32 word) + 1 = word_of_nat (Suc ?n)"
    by simp
  then have cnt: "unat (scast ((word_of_nat ?n :: 32 word) + 1) :: 64 word) = Suc ?n"
    using assms(2) by (simp only: size_of_int unat_of_len)
  show ?thesis
  proof (cases "?n < unat dest_size")
    case True
    then have m: "memcpy dest 0 (s @ NUL # rest) (scast ((word_of_nat ?n :: 32 word) + 1))
        = Some (s @ NUL # drop (Suc ?n) dest)"
      using assms(3) by (simp add: memcpy_def cnt)
    show ?thesis
      using True by (simp add: strmaxcpy_def strlen_string [OF assms(1)] len sz cmp m Let_def)
  next
    case False
    then show ?thesis
      by (simp add: strmaxcpy_def strlen_string [OF assms(1)] len sz cmp Let_def)
  qed
qed

lemma strmaxcat_in_range:
  assumes "NUL \<notin> set d" "NUL \<notin> set s" "length s < 2147483647"
    and "length (d @ NUL # tail) = unat dest_size" "unat dest_size < 2147483648"
  shows "strmaxcat (d @ NUL # tail) (s @ NUL # rest) dest_size =
     (if length d + length s < unat dest_size
      then Some (0, d @ s @ NUL # drop (Suc (length d + length s)) (d @ NUL # tail))
      else Some (- 1, d @ NUL # tail))"
proof -
  let ?dn = "length d" and ?sn = "length s" and ?D = "unat dest_size"
  have dn: "?dn < ?D" "?dn < 2147483648"
    using assms(4,5) by simp_all
  have destlen: "(ucast (word_of_nat ?dn :: 64 word) :: 32 word) = word_of_nat ?dn"
    using dn by (simp add: int_of_size)
  have srclen: "(ucast (word_of_nat ?sn :: 64 word) :: 32 word) = word_of_nat ?sn"
    using assms(3) by (simp add: int_of_size)
  have wide: "(scast (word_of_nat ?dn :: 32 word) :: 64 word) = word_of_nat ?dn"
    using dn by (simp add: size_of_int)
  have remain: "(ucast dest_size :: 32 word) - word_of_nat ?dn = word_of_nat (?D - ?dn)"
    "(ucast (dest_size - word_of_nat ?dn) :: 32 word) = word_of_nat (?D - ?dn)"
    using dn(1) assms(5) by (rule remain_value, rule remain_value_wide)
  have cmp: "(word_of_nat (?D - ?dn) :: 32 word) \<le>s word_of_nat ?sn \<longleftrightarrow> ?D - ?dn \<le> ?sn"
    using assms(3,5) by (simp add: word_sle_eq sint_of_len)
  have off: "sint (word_of_nat ?dn :: 32 word) = int ?dn"
    using dn by (simp add: sint_of_len)
  have "(word_of_nat ?sn :: 32 word) + 1 = word_of_nat (Suc ?sn)"
    by simp
  then have cnt: "unat (scast ((word_of_nat ?sn :: 32 word) + 1) :: 64 word) = Suc ?sn"
    using assms(3) by (simp only: size_of_int unat_of_len)
  have step: "strmaxcat (d @ NUL # tail) (s @ NUL # rest) dest_size =
      (if (word_of_nat (?D - ?dn) :: 32 word) \<le>s word_of_nat ?sn then Some (- 1, d @ NUL # tail)
       else (case memcpy (d @ NUL # tail) (int ?dn) (s @ NUL # rest)
                    (scast ((word_of_nat ?sn :: 32 word) + 1)) of
               None \<Rightarrow> None
             | Some dest' \<Rightarrow> Some (0, dest')))"
    by (simp only: strmaxcat_def strlen_string [OF assms(1)] strlen_string [OF assms(2)]
        option.case Let_def destlen srclen wide remain(2) off)
  show ?thesis
  proof (cases "?dn + ?sn < ?D")
    case True
    then have m: "memcpy (d @ NUL # tail) (int ?dn) (s @ NUL # rest)
          (scast ((word_of_nat ?sn :: 32 word) + 1))
        = Some (d @ s @ NUL # drop (Suc (?dn + ?sn)) (d @ NUL # tail))"
      using assms(4) by (simp add: memcpy_def cnt)
    from True have "\<not> ?D - ?dn \<le> ?sn" by simp
    then show ?thesis
      using True by (simp only: step cmp m if_False if_True option.case)
  next
    case False
    then have "?D - ?dn \<le> ?sn" by simp
    then show ?thesis
      using False by (simp only: step cmp if_False if_True)
  qed
qed

lemma strmaxcpy_hi_fits:
  "strmaxcpy ''xxxx'' (''hi'' @ [NUL]) 4 = Some (0, ''hi'' @ [NUL] @ ''x'')"
  using strmaxcpy_in_range [of "''hi''" "''xxxx''" 4 "[]"] by (simp add: NUL_def)

lemma strmaxcpy_hi_overflow:
  "strmaxcpy ''xx'' (''hi'' @ [NUL]) 2 = Some (- 1, ''xx'')"
  using strmaxcpy_in_range [of "''hi''" "''xx''" 2 "[]"] by (simp add: NUL_def)

lemma strlen_long_source:
  "strlen (replicate 4294967297 (CHR ''a'') @ [NUL]) = Some 4294967297"
  using strlen_string [of "replicate 4294967297 (CHR ''a'')" "[]"] by (simp add: NUL_def)

text \<open>
  C9. The claim: for every destination capacity \<open>dest_size\<close> and every source
  string, \<^verbatim>\<open>strmaxcpy\<close> succeeds iff \<open>strlen src < dest_size\<close>, leaving the
  source and its terminator in the destination, and otherwise returns -1
  with the destination unchanged; likewise \<^verbatim>\<open>strmaxcat\<close> with
  \<open>strlen dest + strlen src < dest_size\<close>. The code keeps the lengths in
  \<^verbatim>\<open>int\<close>s. For a source of \<open>2^32 + 1\<close> characters and a 4-byte destination,
  \<^verbatim>\<open>len\<close> is 1, the test \<^verbatim>\<open>len >= dest_size\<close> is false, two bytes are copied
  and 0 is returned: the call succeeds although the source does not fit, and
  the destination holds no terminator. For an empty string in a destination
  of \<open>2^31\<close> bytes, \<^verbatim>\<open>remain\<close> is negative and \<^verbatim>\<open>strmaxcat\<close> of a one-character
  source returns -1 although the result would fit.
\<close>

theorem strmax_int_truncation:
  "strlen (replicate 4294967297 (CHR ''a'') @ [NUL]) = Some 4294967297
   \<and> strmaxcpy ''xxxx'' (replicate 4294967297 (CHR ''a'') @ [NUL]) 4 = Some (0, ''aaxx'')
   \<and> NUL \<notin> set ''aaxx''
   \<and> strmaxcat (NUL # replicate 2147483647 (CHR ''x'')) (''a'' @ [NUL]) 2147483648
       = Some (- 1, NUL # replicate 2147483647 (CHR ''x''))"
proof -
  have r: "replicate 2 (CHR ''a'') = ''aa''"
    by (simp add: numeral_2_eq_2)
  have cpy: "strmaxcpy ''xxxx'' (replicate 4294967297 (CHR ''a'') @ [NUL]) 4 = Some (0, ''aaxx'')"
    by (simp add: strmaxcpy_def strlen_long_source memcpy_def Let_def word_le_def r)
  have cat: "strmaxcat (NUL # replicate 2147483647 (CHR ''x'')) (''a'' @ [NUL]) 2147483648
       = Some (- 1, NUL # replicate 2147483647 (CHR ''x''))"
    by (simp add: strmaxcat_def strlen_def memcpy_def Let_def NUL_def word_sle_eq)
  have "NUL \<notin> set ''aaxx''"
    by (simp add: NUL_def)
  with strlen_long_source cpy cat show ?thesis
    by (intro conjI)
qed

end
